theory Spec2Isabelle
  imports Main
begin

section \<open>JavaScript values used by App.tsx\<close>

text \<open>
  Strings are byte strings: an ASCII character is one byte, any other character is
  the bytes of its UTF-8 encoding. The builtin \<open>String.prototype.toUpperCase\<close>
  follows the case tables of Unicode, which are no part of the program: it is a
  parameter \<open>upper\<close> of every definition that calls it, and on ASCII strings it is
  \<open>toUpperCase\<close> below. A number is given by what \<open>Number::toString\<close> reads
  off it: a finite number is \<open>\<plusminus> s \<times> 10^(n - k)\<close>, where \<open>s\<close> is the shortest
  significand that round-trips, \<open>k\<close> the count of its decimal digits and \<open>n\<close> the
  position of the decimal point (42000.5 is \<open>s = 420005\<close>, \<open>n = 5\<close>; 10 is
  \<open>s = 1\<close>, \<open>n = 2\<close>; 1e-8 is \<open>s = 1\<close>, \<open>n = -7\<close>).
\<close>

datatype jsnum = NaN | Infinity bool | Finite bool nat int

datatype jsval = JUndefined | JNull | JBoolean bool | JNumber jsnum | JString string

datatype js_error = TypeError

definition ascii_lower :: string where
  "ascii_lower = ''abcdefghijklmnopqrstuvwxyz''"

definition ascii_upper :: string where
  "ascii_upper = ''ABCDEFGHIJKLMNOPQRSTUVWXYZ''"

definition toUpperCase_char :: "char \<Rightarrow> char" where
  "toUpperCase_char c =
     (case map_of (zip ascii_lower ascii_upper) c of Some u \<Rightarrow> u | None \<Rightarrow> c)"

text \<open>The strings of ASCII characters: no byte has its top bit set.\<close>

definition is_ascii :: "string \<Rightarrow> bool" where
  "is_ascii s = list_all (\<lambda>c. \<not> digit7 c) s"

text \<open>
  \<open>String.prototype.toUpperCase\<close> as it acts on ASCII strings: the letters \<open>a\<close> to
  \<open>z\<close> become \<open>A\<close> to \<open>Z\<close>, every other ASCII character stays.
\<close>

definition toUpperCase :: "string \<Rightarrow> string" where
  "toUpperCase s = map toUpperCase_char s"

definition digit_char :: "nat \<Rightarrow> char" where
  "digit_char d = ''0123456789'' ! d"

text \<open>The decimal digits of a natural number, most significant first.\<close>

fun dec :: "nat \<Rightarrow> string" where
  "dec n = (if n < 10 then [digit_char n] else dec (n div 10) @ [digit_char (n mod 10)])"

declare dec.simps [simp del]

text \<open>
  \<open>Number::toString\<close> (radix 10) for a finite non-zero magnitude, with the four
  layouts of the language definition in its order: integer with trailing zeros,
  decimal point inside the digits, leading \<open>0.\<close>, and exponent notation.
\<close>

definition finite_toString :: "nat \<Rightarrow> int \<Rightarrow> string" where
  "finite_toString s n =
     (let ds = dec s; k = int (length ds) in
      if k \<le> n \<and> n \<le> 21 then ds @ replicate (nat (n - k)) (CHR ''0'')
      else if 0 < n \<and> n \<le> 21 then take (nat n) ds @ ''.'' @ drop (nat n) ds
      else if - 6 < n \<and> n \<le> 0 then ''0.'' @ replicate (nat (- n)) (CHR ''0'') @ ds
      else
        (let e = n - 1;
             sgn = (if e < 0 then ''-'' else ''+'');
             es = dec (nat \<bar>e\<bar>) in
         if k = 1 then ds @ ''e'' @ sgn @ es
         else take 1 ds @ ''.'' @ drop 1 ds @ ''e'' @ sgn @ es))"

definition Number_toString :: "jsnum \<Rightarrow> string" where
  "Number_toString x =
     (case x of
        NaN \<Rightarrow> ''NaN''
      | Infinity neg \<Rightarrow> (if neg then ''-Infinity'' else ''Infinity'')
      | Finite neg s n \<Rightarrow>
          (if s = 0 then ''0''
           else (if neg then ''-'' else '''') @ finite_toString s n))"

text \<open>
  The characters of a number printed without an exponent, and the numbers that are
  printed so: zero, and the finite numbers with the decimal point at \<open>-5 .. 21\<close>
  (magnitudes from \<open>1e-6\<close> up to, not including, \<open>1e21\<close>).
\<close>

definition plain_chars :: "char set" where
  "plain_chars = set ''0123456789.-''"

definition plain_decimal :: "jsnum \<Rightarrow> bool" where
  "plain_decimal x =
     (case x of Finite neg s n \<Rightarrow> s = 0 \<or> (- 6 < n \<and> n \<le> 21) | _ \<Rightarrow> False)"

definition Boolean_toString :: "bool \<Rightarrow> string" where
  "Boolean_toString b = (if b then ''true'' else ''false'')"

text \<open>
  \<open>v.toString()\<close> on a value: reading a property of \<open>null\<close> or \<open>undefined\<close>
  raises a TypeError.
\<close>

definition js_toString :: "jsval \<Rightarrow> js_error + string" where
  "js_toString v =
     (case v of
        JUndefined \<Rightarrow> Inl TypeError
      | JNull \<Rightarrow> Inl TypeError
      | JBoolean b \<Rightarrow> Inr (Boolean_toString b)
      | JNumber x \<Rightarrow> Inr (Number_toString x)
      | JString s \<Rightarrow> Inr s)"

text \<open>
  \<open>v.toUpperCase()\<close> on a value: only strings have the method, the builtin
  \<open>upper\<close>; calling it on anything else raises a TypeError.
\<close>

definition js_toUpperCase :: "(string \<Rightarrow> string) \<Rightarrow> jsval \<Rightarrow> js_error + string" where
  "js_toUpperCase upper v =
     (case v of JString s \<Rightarrow> Inr (upper s) | _ \<Rightarrow> Inl TypeError)"

section \<open>Data model\<close>

text \<open>
  A coin arrives as a JSON object: the interface \<open>Coin\<close> is erased at run time, so a
  record is the list of its fields, each name occurring once, and a field that is
  missing reads as \<open>undefined\<close>.
\<close>

type_synonym Coin = "(string \<times> jsval) list"

definition field :: "Coin \<Rightarrow> string \<Rightarrow> jsval" where
  "field c k = (case map_of c k of None \<Rightarrow> JUndefined | Some v \<Rightarrow> v)"

datatype Currency = Usd | Eur

datatype Order = Market_cap_desc | Market_cap_asc

fun Currency_value :: "Currency \<Rightarrow> string" where
  "Currency_value Usd = ''usd''"
| "Currency_value Eur = ''eur''"

fun Order_value :: "Order \<Rightarrow> string" where
  "Order_value Market_cap_desc = ''market_cap_desc''"
| "Order_value Market_cap_asc = ''market_cap_asc''"

definition PAGINATION_TOTAL :: nat where
  "PAGINATION_TOTAL = 10000"

definition PAGE_SIZE_OPTIONS :: "nat list" where
  "PAGE_SIZE_OPTIONS = [5, 10, 20, 50, 100]"

definition CURRENCY_OPTIONS :: "(Currency \<times> string) list" where
  "CURRENCY_OPTIONS = [(Usd, ''USD''), (Eur, ''EUR'')]"

definition ORDER_OPTIONS :: "(Order \<times> string) list" where
  "ORDER_OPTIONS =
     [(Market_cap_desc, ''Market cap descending''), (Market_cap_asc, ''Market cap ascending'')]"

section \<open>The request of \<open>useGetCoins\<close>\<close>

record GetCoinsHookParams =
  currency :: Currency
  order :: Order
  perPage :: jsnum
  page :: jsnum
  sparkline :: "bool option"
  enabled :: "bool option"

definition baseUrl :: string where
  "baseUrl = ''https://api.coingecko.com/api/v3/coins/markets''"

text \<open>An optional parameter that is left out takes its default.\<close>

definition default_to :: "'a \<Rightarrow> 'a option \<Rightarrow> 'a" where
  "default_to d v = (case v of None \<Rightarrow> d | Some x \<Rightarrow> x)"

definition apiUrl :: "GetCoinsHookParams \<Rightarrow> string" where
  "apiUrl p =
     baseUrl @ ''?vs_currency='' @ Currency_value (currency p)
       @ ''&order='' @ Order_value (order p)
       @ ''&per_page='' @ Number_toString (perPage p)
       @ ''&page='' @ Number_toString (page p)
       @ ''&sparkline='' @ Boolean_toString (default_to False (sparkline p))"

text \<open>The key handed to \<open>useSWR\<close>: \<open>enabled ? apiUrl : null\<close>.\<close>

definition swr_key :: "GetCoinsHookParams \<Rightarrow> string option" where
  "swr_key p = (if default_to True (enabled p) then Some (apiUrl p) else None)"

text \<open>The options \<open>useGetCoins\<close> passes to \<open>useSWR\<close>.\<close>

record SWRConfiguration =
  revalidateOnFocus :: bool
  keepPreviousData :: bool
  errorRetryCount :: nat

definition swr_options :: SWRConfiguration where
  "swr_options = \<lparr>revalidateOnFocus = False, keepPreviousData = True, errorRetryCount = 3\<rparr>"

text \<open>What \<open>useSWR\<close> hands back (\<open>mutate\<close>, which \<open>App\<close> never calls, is left out).\<close>

record 'd SWRResponse =
  data :: "'d option"
  isLoading :: bool
  isValidating :: bool

record GetCoinsResult =
  coins :: "Coin list"
  coins_isLoading :: bool
  coins_isValidating :: bool

text \<open>\<open>const coins = data ? data : []\<close>; an array, even an empty one, is truthy.\<close>

definition coins_of :: "Coin list option \<Rightarrow> Coin list" where
  "coins_of d = (case d of None \<Rightarrow> [] | Some cs \<Rightarrow> cs)"

text \<open>
  The hook, with the library's \<open>useSWR\<close> as a parameter: it is called with the key
  and the options, and its answer is unpacked.
\<close>

definition useGetCoins ::
  "(string option \<Rightarrow> SWRConfiguration \<Rightarrow> Coin list SWRResponse) \<Rightarrow> GetCoinsHookParams
     \<Rightarrow> GetCoinsResult" where
  "useGetCoins useSWR p =
     (let r = useSWR (swr_key p) swr_options in
      \<lparr>coins = coins_of (data r), coins_isLoading = isLoading r,
       coins_isValidating = isValidating r\<rparr>)"

section \<open>The fetcher\<close>

text \<open>What the network does to a GET: no answer, or a status and a body.\<close>

datatype 'd http_outcome = NetworkFailure | HttpResponse nat 'd

datatype axios_error = NetworkError | BadStatus nat

datatype 'd AxiosResponse = AxiosResponse (status: nat) (response_data: 'd)

text \<open>
  Modelled from the spec: \<open>axios.get\<close> is a library function that is not under src/.
  A request fails on a network error or on a non-success HTTP status (a status
  outside 200..299); otherwise it resolves to the response.
\<close>

definition axios_get :: "(string \<Rightarrow> 'd http_outcome) \<Rightarrow> string \<Rightarrow> axios_error + 'd AxiosResponse" where
  "axios_get net url =
     (case net url of
        NetworkFailure \<Rightarrow> Inl NetworkError
      | HttpResponse st body \<Rightarrow>
          (if 200 \<le> st \<and> st < 300 then Inr (AxiosResponse st body) else Inl (BadStatus st)))"

text \<open>The answers on which the request succeeds.\<close>

definition succeeds :: "'d http_outcome \<Rightarrow> bool" where
  "succeeds out = (case out of NetworkFailure \<Rightarrow> False | HttpResponse st _ \<Rightarrow> 200 \<le> st \<and> st < 300)"

text \<open>A notification: its text and its position.\<close>

type_synonym toast = "string \<times> string"

text \<open>
  \<open>fetcher\<close>: the body of the response, or, when the request is rejected, one
  \<open>toast.error\<close> and the same error thrown again. The list of notifications shown so
  far is the state.
\<close>

definition fetcher ::
  "(string \<Rightarrow> 'd http_outcome) \<Rightarrow> string \<Rightarrow> toast list \<Rightarrow> (axios_error + 'd) \<times> toast list" where
  "fetcher net url ts =
     (case axios_get net url of
        Inr response \<Rightarrow> (Inr (response_data response), ts)
      | Inl error \<Rightarrow> (Inl error, ts @ [(''Error fetching data'', ''bottom-left'')]))"

section \<open>The table\<close>

datatype cell = Text string | ImageElement jsval string nat | Plain jsval

record column =
  title :: string
  dataIndex :: string
  key :: string
  render :: "(jsval \<Rightarrow> js_error + cell) option"
  responsive :: "string list option"

definition render_image :: "jsval \<Rightarrow> js_error + cell" where
  "render_image text = Inr (ImageElement text ''coin'' 32)"

definition render_symbol :: "(string \<Rightarrow> string) \<Rightarrow> jsval \<Rightarrow> js_error + cell" where
  "render_symbol upper text =
     (case js_toUpperCase upper text of Inl e \<Rightarrow> Inl e | Inr s \<Rightarrow> Inr (Text s))"

definition render_price :: "(string \<Rightarrow> string) \<Rightarrow> Currency \<Rightarrow> jsval \<Rightarrow> js_error + cell" where
  "render_price upper cur text =
     (case js_toString text of
        Inl e \<Rightarrow> Inl e
      | Inr s \<Rightarrow> Inr (Text (upper s @ '' '' @ Currency_value cur)))"

text \<open>The column definitions of \<open>App\<close>, for the selected currency.\<close>

definition columns :: "(string \<Rightarrow> string) \<Rightarrow> Currency \<Rightarrow> column list" where
  "columns upper cur =
     [\<lparr>title = ''Image'', dataIndex = ''image'', key = ''image'',
        render = Some render_image, responsive = None\<rparr>,
      \<lparr>title = ''Name'', dataIndex = ''name'', key = ''name'',
        render = None, responsive = None\<rparr>,
      \<lparr>title = ''Symbol'', dataIndex = ''symbol'', key = ''symbol'',
        render = Some (render_symbol upper), responsive = Some [''lg'']\<rparr>,
      \<lparr>title = ''Price'', dataIndex = ''current_price'', key = ''current_price'',
        render = Some (render_price upper cur), responsive = None\<rparr>,
      \<lparr>title = ''Market Cap'', dataIndex = ''market_cap'', key = ''market_cap'',
        render = None, responsive = Some [''lg'']\<rparr>,
      \<lparr>title = ''Circulating Supply'', dataIndex = ''circulating_supply'',
        key = ''circulating_supply'', render = None, responsive = None\<rparr>]"

text \<open>
  A cell of the table: the column's \<open>render\<close> applied to the record's value at
  \<open>dataIndex\<close>, or that value itself when the column has no \<open>render\<close>.
\<close>

definition render_cell :: "column \<Rightarrow> Coin \<Rightarrow> js_error + cell" where
  "render_cell col c =
     (case render col of
        None \<Rightarrow> Inr (Plain (field c (dataIndex col)))
      | Some f \<Rightarrow> f (field c (dataIndex col)))"

text \<open>Rendering stops at the first cell that raises.\<close>

fun collect :: "('e + 'a) list \<Rightarrow> 'e + 'a list" where
  "collect [] = Inr []"
| "collect (r # rs) =
     (case r of
        Inl e \<Rightarrow> Inl e
      | Inr x \<Rightarrow> (case collect rs of Inl e \<Rightarrow> Inl e | Inr xs \<Rightarrow> Inr (x # xs)))"

definition render_row :: "column list \<Rightarrow> Coin \<Rightarrow> js_error + cell list" where
  "render_row cols c = collect (map (\<lambda>col. render_cell col c) cols)"

definition Table :: "column list \<Rightarrow> Coin list \<Rightarrow> js_error + cell list list" where
  "Table cols dataSource = collect (map (render_row cols) dataSource)"

text \<open>The cell of the column titled \<open>t\<close> for a record.\<close>

definition cell_of ::
  "(string \<Rightarrow> string) \<Rightarrow> Currency \<Rightarrow> string \<Rightarrow> Coin \<Rightarrow> (js_error + cell) option" where
  "cell_of upper cur t c =
     (case filter (\<lambda>col. title col = t) (columns upper cur) of
        [] \<Rightarrow> None
      | col # _ \<Rightarrow> Some (render_cell col c))"

section \<open>The request library, as a state machine\<close>

text \<open>
  Modelled from the spec: \<open>useSWR\<close> is a library function that is not under src/.
  The model keeps what the spec says of it: requests in flight are keyed by the
  request key and a key that is already in flight is not requested again; a change
  of the key triggers one new fetch and a null key none; the latest successful
  result stays visible while another key is being fetched (\<open>keepPreviousData\<close>); the
  answer to an abandoned key is never applied; a failure leaves the data as it was
  and is retried up to \<open>errorRetryCount\<close> times. The delay before a retry is not
  modelled.
\<close>

record 'd swr_state =
  current_key :: "string option"
  cached :: "(string \<times> 'd) option"
  in_flight :: "(string \<times> nat) list"
  calls :: "string list"
  toasts :: "toast list"

definition swr_init :: "'d swr_state" where
  "swr_init = \<lparr>current_key = None, cached = None, in_flight = [], calls = [], toasts = []\<rparr>"

datatype 'd event = Render GetCoinsHookParams | Settle string "'d http_outcome"

text \<open>
  Modelled from the spec: what \<open>useSWR\<close> (not under src/) returns for a key in a
  state. The data is the latest successful result; with \<open>keepPreviousData\<close> it stays
  visible under another key. \<open>isValidating\<close> holds while the key is in flight,
  \<open>isLoading\<close> while it is in flight and the data is not its own.
\<close>

definition useSWR_at :: "'d swr_state \<Rightarrow> string option \<Rightarrow> SWRConfiguration \<Rightarrow> 'd SWRResponse" where
  "useSWR_at s k cfg =
     (let own = (case cached s of None \<Rightarrow> False | Some (u, _) \<Rightarrow> k = Some u);
          flying = (case k of None \<Rightarrow> False | Some u \<Rightarrow> u \<in> fst ` set (in_flight s)) in
      \<lparr>data = (case cached s of
                 None \<Rightarrow> None
               | Some (_, d) \<Rightarrow> if own \<or> keepPreviousData cfg then Some d else None),
       isLoading = (flying \<and> \<not> own),
       isValidating = flying\<rparr>)"

text \<open>
  Modelled from the spec: a render of the hook with parameters \<open>p\<close>, as \<open>useSWR\<close>
  (not under src/) reacts to its key. A key that has not changed and a null key
  trigger nothing; any change of the key triggers exactly one new fetch, also to a
  key that was fetched before, unless that key is already in flight.
\<close>

definition step_render :: "GetCoinsHookParams \<Rightarrow> 'd swr_state \<Rightarrow> 'd swr_state" where
  "step_render p s =
     (let k = swr_key p in
      if k = current_key s then s
      else
        (case k of
           None \<Rightarrow> s\<lparr>current_key := None\<rparr>
         | Some u \<Rightarrow>
             if u \<in> fst ` set (in_flight s) then s\<lparr>current_key := k\<rparr>
             else s\<lparr>current_key := k, in_flight := in_flight s @ [(u, 0)],
                    calls := calls s @ [u]\<rparr>))"

text \<open>
  Modelled from the spec: the network answers the request in flight for \<open>u\<close>, the
  fetcher of the source runs on the answer, and \<open>useSWR\<close> (not under src/) takes its
  outcome. A result is applied only when \<open>u\<close> is still the current key; a failure
  leaves the data as it was and, for the current key, is retried while the request
  has been retried fewer than \<open>errorRetryCount\<close> times.
\<close>

definition step_settle ::
  "SWRConfiguration \<Rightarrow> string \<Rightarrow> 'd http_outcome \<Rightarrow> 'd swr_state \<Rightarrow> 'd swr_state" where
  "step_settle cfg u out s =
     (case map_of (in_flight s) u of
        None \<Rightarrow> s
      | Some r \<Rightarrow>
          (let rest = filter (\<lambda>(k, _). k \<noteq> u) (in_flight s);
               (result, ts) = fetcher (\<lambda>_. out) u (toasts s) in
           case result of
             Inr d \<Rightarrow>
               if current_key s = Some u
               then s\<lparr>in_flight := rest, toasts := ts, cached := Some (u, d)\<rparr>
               else s\<lparr>in_flight := rest, toasts := ts\<rparr>
           | Inl e \<Rightarrow>
               if current_key s = Some u \<and> r < errorRetryCount cfg
               then s\<lparr>in_flight := rest @ [(u, Suc r)], toasts := ts, calls := calls s @ [u]\<rparr>
               else s\<lparr>in_flight := rest, toasts := ts\<rparr>))"

fun step :: "SWRConfiguration \<Rightarrow> 'd event \<Rightarrow> 'd swr_state \<Rightarrow> 'd swr_state" where
  "step cfg (Render p) s = step_render p s"
| "step cfg (Settle u out) s = step_settle cfg u out s"

fun run :: "SWRConfiguration \<Rightarrow> 'd event list \<Rightarrow> 'd swr_state \<Rightarrow> 'd swr_state" where
  "run cfg [] s = s"
| "run cfg (e # es) s = run cfg es (step cfg e s)"

text \<open>
  The events that leave the fetch for key \<open>k\<close> unsettled while \<open>k\<close> stays the
  current key: renders with that key, answers to other keys, failed answers.
\<close>

fun keeps :: "string \<Rightarrow> 'd event \<Rightarrow> bool" where
  "keeps k (Render p) = (swr_key p = Some k)"
| "keeps k (Settle u out) = (u \<noteq> k \<or> \<not> succeeds out)"

text \<open>No key is in flight twice, and no request is past its last retry.\<close>

definition swr_inv :: "SWRConfiguration \<Rightarrow> 'd swr_state \<Rightarrow> bool" where
  "swr_inv cfg s =
     (distinct (map fst (in_flight s)) \<and> (\<forall>(u, r) \<in> set (in_flight s). r \<le> errorRetryCount cfg))"

text \<open>The coin list \<open>App\<close> shows in a state, for the parameters of its render.\<close>

definition shown_coins :: "Coin list swr_state \<Rightarrow> GetCoinsHookParams \<Rightarrow> Coin list" where
  "shown_coins s p = coins (useGetCoins (useSWR_at s) p)"

section \<open>Query state of \<open>App\<close>\<close>

record App_state =
  st_page :: jsnum
  st_pageSize :: jsnum
  st_currency :: Currency
  st_order :: Order

text \<open>The four \<open>useState\<close> initial values: 1, 10 and the first option of each list.\<close>

definition App_initial :: App_state where
  "App_initial =
     \<lparr>st_page = Finite False 1 1, st_pageSize = Finite False 1 2,
      st_currency = fst (CURRENCY_OPTIONS ! 0), st_order = fst (ORDER_OPTIONS ! 0)\<rparr>"

text \<open>The argument of the call of \<open>useGetCoins\<close> in \<open>App\<close>.\<close>

definition App_params :: "App_state \<Rightarrow> GetCoinsHookParams" where
  "App_params st =
     \<lparr>currency = st_currency st, order = st_order st, perPage = st_pageSize st,
      page = st_page st, sparkline = None, enabled = None\<rparr>"

definition handleChangeCurrency :: "Currency \<Rightarrow> App_state \<Rightarrow> App_state" where
  "handleChangeCurrency v st = st\<lparr>st_currency := v\<rparr>"

definition handleChangeOrder :: "Order \<Rightarrow> App_state \<Rightarrow> App_state" where
  "handleChangeOrder v st = st\<lparr>st_order := v\<rparr>"

definition handlePageSizeChange :: "jsnum \<Rightarrow> jsnum \<Rightarrow> App_state \<Rightarrow> App_state" where
  "handlePageSizeChange _ v st = st\<lparr>st_pageSize := v\<rparr>"

definition handlePageChange :: "jsnum \<Rightarrow> App_state \<Rightarrow> App_state" where
  "handlePageChange p st = st\<lparr>st_page := p\<rparr>"

section \<open>Properties\<close>

subsection \<open>Upper-casing and number formatting\<close>

lemma ascii_lower_distinct: "distinct ascii_lower"
  by (simp add: ascii_lower_def)

lemma ascii_disjoint: "set ascii_upper \<inter> set ascii_lower = {}"
  by (simp add: ascii_lower_def ascii_upper_def)

lemma toUpperCase_char_lower:
  assumes "j < 26"
  shows "toUpperCase_char (ascii_lower ! j) = ascii_upper ! j"
proof -
  have len: "length ascii_lower = length ascii_upper" "length ascii_upper = 26"
    by (simp_all add: ascii_lower_def ascii_upper_def)
  have "map_of (zip ascii_lower ascii_upper) (ascii_lower ! j) = Some (ascii_upper ! j)"
    using map_of_zip_nth [OF len(1) ascii_lower_distinct] assms len(2) by simp
  then show ?thesis by (simp add: toUpperCase_char_def)
qed

lemma toUpperCase_char_other:
  assumes "c \<notin> set ascii_lower"
  shows "toUpperCase_char c = c"
proof -
  have "map_of (zip ascii_lower ascii_upper) c = None"
    using assms by (simp add: map_of_zip_is_None ascii_lower_def ascii_upper_def)
  then show ?thesis by (simp add: toUpperCase_char_def)
qed

lemma toUpperCase_char_not_lower: "toUpperCase_char c \<notin> set ascii_lower"
proof (cases "c \<in> set ascii_lower")
  case True
  then obtain j where j: "j < length ascii_lower" "c = ascii_lower ! j"
    by (auto simp: in_set_conv_nth)
  then have j26: "j < 26" by (simp add: ascii_lower_def)
  have "length ascii_upper = 26" by (simp add: ascii_upper_def)
  then have "ascii_upper ! j \<in> set ascii_upper"
    using j26 by (intro nth_mem) simp
  then show ?thesis
    using toUpperCase_char_lower [OF j26] j(2) ascii_disjoint by auto
next
  case False
  then show ?thesis by (simp add: toUpperCase_char_other)
qed

lemma toUpperCase_fixed:
  "set s \<inter> set ascii_lower = {} \<Longrightarrow> toUpperCase s = s"
  unfolding toUpperCase_def
  by (induction s) (auto simp: toUpperCase_char_other)

lemma plain_not_lower: "plain_chars \<inter> set ascii_lower = {}"
  by (simp add: plain_chars_def ascii_lower_def)

lemma digit_char_plain: "d < 10 \<Longrightarrow> digit_char d \<in> plain_chars"
proof -
  assume "d < 10"
  then have "d \<in> {0, 1, 2, 3, 4, 5, 6, 7, 8, 9}" by auto
  then show ?thesis
    by (auto simp: digit_char_def plain_chars_def)
qed

lemma dec_plain: "set (dec n) \<subseteq> plain_chars"
proof (induction n rule: dec.induct)
  case (1 n)
  show ?case
  proof (cases "n < 10")
    case True
    then show ?thesis by (subst dec.simps) (simp add: digit_char_plain)
  next
    case False
    then show ?thesis
      using "1" by (subst dec.simps) (simp add: digit_char_plain)
  qed
qed

lemma replicate_zero_plain: "set (replicate m (CHR ''0'')) \<subseteq> plain_chars"
  by (auto simp: plain_chars_def)

lemma take_plain: "set xs \<subseteq> plain_chars \<Longrightarrow> set (take m xs) \<subseteq> plain_chars"
  by (meson set_take_subset subset_trans)

lemma drop_plain: "set xs \<subseteq> plain_chars \<Longrightarrow> set (drop m xs) \<subseteq> plain_chars"
  by (meson set_drop_subset subset_trans)

lemma finite_toString_plain:
  assumes "- 6 < n" "n \<le> 21"
  shows "set (finite_toString s n) \<subseteq> plain_chars"
proof -
  have dot: "CHR ''.'' \<in> plain_chars" "CHR ''0'' \<in> plain_chars"
    by (simp_all add: plain_chars_def)
  show ?thesis
    using assms dec_plain [of s] take_plain [OF dec_plain, of _ s]
      drop_plain [OF dec_plain, of _ s] replicate_zero_plain dot
    by (auto simp: finite_toString_def Let_def)
qed

lemma Number_toString_plain:
  assumes "plain_decimal x"
  shows "set (Number_toString x) \<subseteq> plain_chars"
proof (cases x)
  case (Finite neg s n)
  have minus: "CHR ''-'' \<in> plain_chars" "CHR ''0'' \<in> plain_chars"
    by (simp_all add: plain_chars_def)
  show ?thesis
  proof (cases "s = 0")
    case True
    then show ?thesis using Finite minus by (simp add: Number_toString_def)
  next
    case False
    then have "- 6 < n" "n \<le> 21"
      using assms Finite by (simp_all add: plain_decimal_def)
    then show ?thesis
      using Finite False minus finite_toString_plain [of n s]
      by (auto simp: Number_toString_def)
  qed
next
  case NaN
  then show ?thesis using assms by (simp add: plain_decimal_def)
next
  case (Infinity neg)
  then show ?thesis using assms by (simp add: plain_decimal_def)
qed

lemma toUpperCase_plain_decimal:
  "plain_decimal x \<Longrightarrow> toUpperCase (Number_toString x) = Number_toString x"
  using Number_toString_plain [of x] plain_not_lower
  by (intro toUpperCase_fixed) auto

lemma cell_of_Price:
  "cell_of upper cur ''Price'' c = Some (render_price upper cur (field c ''current_price''))"
  by (simp add: cell_of_def columns_def render_cell_def)

lemma cell_of_Symbol:
  "cell_of upper cur ''Symbol'' c = Some (render_symbol upper (field c ''symbol''))"
  by (simp add: cell_of_def columns_def render_cell_def)

subsection \<open>The table\<close>

lemmas js_evals = toUpperCase_def toUpperCase_char_def ascii_lower_def ascii_upper_def
  Number_toString_def finite_toString_def dec.simps digit_char_def Boolean_toString_def
  js_toString_def js_toUpperCase_def

text \<open>
  C3, as amended. For every coin record whose \<open>current_price\<close> is a number and for
  every currency, the Price cell is the upper-cased string form of the price, a space
  and the lowercase currency code. When the price is printed without an exponent,
  this is the price itself followed by a space and the currency code.
\<close>

theorem price_cell_upper_cased:
  assumes "field c ''current_price'' = JNumber x"
  shows "cell_of toUpperCase cur ''Price'' c =
           Some (Inr (Text (toUpperCase (Number_toString x) @ '' '' @ Currency_value cur)))
         \<and> (plain_decimal x \<longrightarrow>
              cell_of toUpperCase cur ''Price'' c =
                Some (Inr (Text (Number_toString x @ '' '' @ Currency_value cur))))"
  using assms
  by (simp add: cell_of_Price render_price_def js_toString_def toUpperCase_plain_decimal)

text \<open>Price 42000.5 with currency \<open>usd\<close> renders \<open>42000.5 usd\<close>.\<close>

theorem price_cell_upper_cased_witness:
  "field [(''id'', JString ''bitcoin''), (''symbol'', JString ''btc''),
          (''name'', JString ''Bitcoin''), (''current_price'', JNumber (Finite False 420005 5))]
     ''current_price'' = JNumber (Finite False 420005 5)
   \<and> plain_decimal (Finite False 420005 5)
   \<and> cell_of toUpperCase Usd ''Price''
       [(''id'', JString ''bitcoin''), (''symbol'', JString ''btc''),
        (''name'', JString ''Bitcoin''), (''current_price'', JNumber (Finite False 420005 5))]
     = Some (Inr (Text ''42000.5 usd''))"
proof -
  let ?c = "[(''id'', JString ''bitcoin''), (''symbol'', JString ''btc''),
             (''name'', JString ''Bitcoin''),
             (''current_price'', JNumber (Finite False 420005 5))]"
  have h: "field ?c ''current_price'' = JNumber (Finite False 420005 5)"
    by (simp add: field_def)
  have pd: "plain_decimal (Finite False 420005 5)"
    by (simp add: plain_decimal_def)
  have str: "Number_toString (Finite False 420005 5) = ''42000.5''"
    by (simp add: js_evals)
  from price_cell_upper_cased [OF h, of Usd] pd
  have "cell_of toUpperCase Usd ''Price'' ?c =
          Some (Inr (Text (Number_toString (Finite False 420005 5) @ '' '' @ Currency_value Usd)))"
    by blast
  then show ?thesis
    using h pd str by simp
qed

text \<open>
  C3 as stated fails: the price 1e-8 has the string form \<open>1e-8\<close>, and its cell reads
  \<open>1E-8 usd\<close>, not \<open>1e-8 usd\<close>.
\<close>

theorem price_cell_counterexample:
  "cell_of toUpperCase Usd ''Price''
     [(''id'', JString ''tiny''), (''symbol'', JString ''tny''), (''name'', JString ''Tiny''),
      (''current_price'', JNumber (Finite False 1 (- 7)))]
     = Some (Inr (Text ''1E-8 usd''))
   \<and> Number_toString (Finite False 1 (- 7)) @ '' '' @ Currency_value Usd = ''1e-8 usd''"
  by (simp add: cell_of_Price render_price_def field_def js_evals)

text \<open>
  C4, as amended. For every coin record whose \<open>symbol\<close> is a string and whose
  \<open>current_price\<close> is a number, as the interface \<open>Coin\<close> declares them, every column
  renders without raising, whatever the other fields hold, \<open>null\<close> and
  \<open>undefined\<close> included, and whatever strings the builtin \<open>upper\<close> returns.
\<close>

theorem row_renders_when_price_is_number:
  assumes "field c ''symbol'' = JString s" and "field c ''current_price'' = JNumber x"
  shows "render_row (columns upper cur) c =
           Inr [ImageElement (field c ''image'') ''coin'' 32,
                Plain (field c ''name''),
                Text (upper s),
                Text (upper (Number_toString x) @ '' '' @ Currency_value cur),
                Plain (field c ''market_cap''),
                Plain (field c ''circulating_supply'')]"
  using assms
  by (simp add: render_row_def columns_def render_cell_def render_image_def render_symbol_def
      render_price_def js_toString_def js_toUpperCase_def)

text \<open>A record with a null image and market cap and no circulating supply.\<close>

theorem row_renders_when_price_is_number_witness:
  "field [(''id'', JString ''bitcoin''), (''symbol'', JString ''btc''),
          (''name'', JString ''Bitcoin''), (''image'', JNull),
          (''current_price'', JNumber (Finite False 420005 5)), (''market_cap'', JNull)]
     ''symbol'' = JString ''btc''
   \<and> field [(''id'', JString ''bitcoin''), (''symbol'', JString ''btc''),
          (''name'', JString ''Bitcoin''), (''image'', JNull),
          (''current_price'', JNumber (Finite False 420005 5)), (''market_cap'', JNull)]
     ''current_price'' = JNumber (Finite False 420005 5)
   \<and> render_row (columns toUpperCase Eur)
       [(''id'', JString ''bitcoin''), (''symbol'', JString ''btc''),
        (''name'', JString ''Bitcoin''), (''image'', JNull),
        (''current_price'', JNumber (Finite False 420005 5)), (''market_cap'', JNull)]
     = Inr [ImageElement JNull ''coin'' 32, Plain (JString ''Bitcoin''), Text ''BTC'',
            Text ''42000.5 eur'', Plain JNull, Plain JUndefined]"
proof -
  let ?c = "[(''id'', JString ''bitcoin''), (''symbol'', JString ''btc''),
             (''name'', JString ''Bitcoin''), (''image'', JNull),
             (''current_price'', JNumber (Finite False 420005 5)), (''market_cap'', JNull)]"
  have h1: "field ?c ''symbol'' = JString ''btc''"
    by (simp add: field_def)
  have h2: "field ?c ''current_price'' = JNumber (Finite False 420005 5)"
    by (simp add: field_def)
  have others: "field ?c ''image'' = JNull" "field ?c ''name'' = JString ''Bitcoin''"
    "field ?c ''market_cap'' = JNull" "field ?c ''circulating_supply'' = JUndefined"
    by (simp_all add: field_def)
  have str: "toUpperCase (Number_toString (Finite False 420005 5)) = ''42000.5''"
    "toUpperCase ''btc'' = ''BTC''"
    by (simp_all add: js_evals)
  show ?thesis
    using row_renders_when_price_is_number [OF h1 h2, of toUpperCase Eur] h1 h2 others str by simp
qed

text \<open>
  C4 as stated fails: with \<open>current_price\<close> null, the Price renderer calls
  \<open>toString\<close> on null and the table raises a TypeError.
\<close>

theorem null_price_counterexample:
  "Table (columns toUpperCase Usd)
     [[(''id'', JString ''bitcoin''), (''symbol'', JString ''btc''),
       (''name'', JString ''Bitcoin''), (''current_price'', JNull)]]
   = Inl TypeError"
  by (simp add: Table_def render_row_def render_cell_def columns_def field_def
      render_price_def render_symbol_def render_image_def js_evals)

text \<open>
  C5. For every coin record, whatever its symbol string, the Symbol cell is exactly
  what the builtin \<open>toUpperCase\<close> returns on the symbol. For an ASCII symbol that
  is the symbol upper-cased whatever its casing was: it has the length of the symbol,
  no lowercase letter is left in it, every lowercase letter is replaced by its capital
  and every other character is kept.
\<close>

theorem symbol_cell_upper_cased:
  assumes "field c ''symbol'' = JString s"
  shows "cell_of upper cur ''Symbol'' c = Some (Inr (Text (upper s)))
         \<and> (is_ascii s \<longrightarrow>
              cell_of toUpperCase cur ''Symbol'' c = Some (Inr (Text (toUpperCase s)))
              \<and> length (toUpperCase s) = length s
              \<and> toUpperCase (toUpperCase s) = toUpperCase s
              \<and> (\<forall>i<length s.
                    toUpperCase s ! i \<notin> set ascii_lower
                    \<and> (\<forall>j<26. s ! i = ascii_lower ! j \<longrightarrow> toUpperCase s ! i = ascii_upper ! j)
                    \<and> (s ! i \<notin> set ascii_lower \<longrightarrow> toUpperCase s ! i = s ! i)))"
proof -
  have cell: "cell_of f cur ''Symbol'' c = Some (Inr (Text (f s)))" for f
    using assms by (simp add: cell_of_Symbol render_symbol_def js_toUpperCase_def)
  have len: "length (toUpperCase s) = length s"
    by (simp add: toUpperCase_def)
  have "set (toUpperCase s) \<inter> set ascii_lower = {}"
    by (auto simp: toUpperCase_def toUpperCase_char_not_lower)
  then have idem: "toUpperCase (toUpperCase s) = toUpperCase s"
    by (rule toUpperCase_fixed)
  have each: "\<forall>i<length s.
      toUpperCase s ! i \<notin> set ascii_lower
      \<and> (\<forall>j<26. s ! i = ascii_lower ! j \<longrightarrow> toUpperCase s ! i = ascii_upper ! j)
      \<and> (s ! i \<notin> set ascii_lower \<longrightarrow> toUpperCase s ! i = s ! i)"
    by (simp add: toUpperCase_def toUpperCase_char_not_lower toUpperCase_char_lower
        toUpperCase_char_other)
  show ?thesis
    using cell [of upper] cell [of toUpperCase] len idem each by blast
qed

text \<open>The symbols \<open>btc\<close> and \<open>bTc\<close> both render \<open>BTC\<close>.\<close>

theorem symbol_cell_upper_cased_witness:
  "field [(''id'', JString ''bitcoin''), (''symbol'', JString ''btc''),
          (''name'', JString ''Bitcoin''), (''image'', JString ''https://img/btc.png''),
          (''current_price'', JNumber (Finite False 420005 5)),
          (''market_cap'', JNumber (Finite False 8 12)),
          (''circulating_supply'', JNumber (Finite False 19 8))] ''symbol'' = JString ''btc''
   \<and> is_ascii ''btc''
   \<and> cell_of toUpperCase Usd ''Symbol''
       [(''id'', JString ''bitcoin''), (''symbol'', JString ''btc''),
        (''name'', JString ''Bitcoin''), (''image'', JString ''https://img/btc.png''),
        (''current_price'', JNumber (Finite False 420005 5)),
        (''market_cap'', JNumber (Finite False 8 12)),
        (''circulating_supply'', JNumber (Finite False 19 8))] = Some (Inr (Text ''BTC''))
   \<and> field [(''id'', JString ''bitcoin''), (''symbol'', JString ''bTc''),
          (''name'', JString ''Bitcoin''), (''image'', JString ''https://img/btc.png''),
          (''current_price'', JNumber (Finite False 420005 5)),
          (''market_cap'', JNumber (Finite False 8 12)),
          (''circulating_supply'', JNumber (Finite False 19 8))] ''symbol'' = JString ''bTc''
   \<and> is_ascii ''bTc''
   \<and> cell_of toUpperCase Eur ''Symbol''
       [(''id'', JString ''bitcoin''), (''symbol'', JString ''bTc''),
        (''name'', JString ''Bitcoin''), (''image'', JString ''https://img/btc.png''),
        (''current_price'', JNumber (Finite False 420005 5)),
        (''market_cap'', JNumber (Finite False 8 12)),
        (''circulating_supply'', JNumber (Finite False 19 8))] = Some (Inr (Text ''BTC''))"
proof -
  let ?c = "[(''id'', JString ''bitcoin''), (''symbol'', JString ''btc''),
             (''name'', JString ''Bitcoin''), (''image'', JString ''https://img/btc.png''),
             (''current_price'', JNumber (Finite False 420005 5)),
             (''market_cap'', JNumber (Finite False 8 12)),
             (''circulating_supply'', JNumber (Finite False 19 8))]"
  let ?d = "[(''id'', JString ''bitcoin''), (''symbol'', JString ''bTc''),
             (''name'', JString ''Bitcoin''), (''image'', JString ''https://img/btc.png''),
             (''current_price'', JNumber (Finite False 420005 5)),
             (''market_cap'', JNumber (Finite False 8 12)),
             (''circulating_supply'', JNumber (Finite False 19 8))]"
  have hc: "field ?c ''symbol'' = JString ''btc''" and hd: "field ?d ''symbol'' = JString ''bTc''"
    by (simp_all add: field_def)
  have ac: "is_ascii ''btc''" and ad: "is_ascii ''bTc''"
    by (simp_all add: is_ascii_def)
  have up: "toUpperCase ''btc'' = ''BTC''" "toUpperCase ''bTc'' = ''BTC''"
    by (simp_all add: js_evals)
  have cc: "cell_of toUpperCase Usd ''Symbol'' ?c = Some (Inr (Text ''BTC''))"
    using symbol_cell_upper_cased [OF hc, of toUpperCase Usd] ac up(1) by simp
  have cd: "cell_of toUpperCase Eur ''Symbol'' ?d = Some (Inr (Text ''BTC''))"
    using symbol_cell_upper_cased [OF hd, of toUpperCase Eur] ad up(2) by simp
  show ?thesis
    using hc ac cc hd ad cd by (intro conjI)
qed

subsection \<open>Request key and query state\<close>

text \<open>
  C6. For every enabled parameter tuple, the request key is the fixed endpoint followed
  by \<open>?vs_currency=\<close>, \<open>&order=\<close>, \<open>&per_page=\<close>, \<open>&page=\<close> and \<open>&sparkline=\<close>
  with the parameters interpolated in that order.
\<close>

theorem request_url_of_enabled_params:
  assumes "enabled p \<noteq> Some False"
  shows "swr_key p =
           Some (''https://api.coingecko.com/api/v3/coins/markets''
                 @ ''?vs_currency='' @ Currency_value (currency p)
                 @ ''&order='' @ Order_value (order p)
                 @ ''&per_page='' @ Number_toString (perPage p)
                 @ ''&page='' @ Number_toString (page p)
                 @ ''&sparkline='' @ (if sparkline p = Some True then ''true'' else ''false''))"
proof -
  have en: "default_to True (enabled p)"
    using assms by (cases "enabled p") (simp_all add: default_to_def)
  have sp: "Boolean_toString (default_to False (sparkline p)) =
              (if sparkline p = Some True then ''true'' else ''false'')"
    by (cases "sparkline p") (simp_all add: default_to_def Boolean_toString_def)
  show ?thesis
    using en sp by (simp add: swr_key_def apiUrl_def baseUrl_def)
qed

text \<open>Page 3 of 50 EUR records in ascending order, with sparkline.\<close>

theorem request_url_of_enabled_params_witness:
  "enabled \<lparr>currency = Eur, order = Market_cap_asc, perPage = Finite False 5 2,
            page = Finite False 3 1, sparkline = Some True, enabled = Some True\<rparr>
     \<noteq> Some False
   \<and> swr_key \<lparr>currency = Eur, order = Market_cap_asc, perPage = Finite False 5 2,
              page = Finite False 3 1, sparkline = Some True, enabled = Some True\<rparr>
     = Some ''https://api.coingecko.com/api/v3/coins/markets?vs_currency=eur&order=market_cap_asc&per_page=50&page=3&sparkline=true''"
proof -
  let ?p = "\<lparr>currency = Eur, order = Market_cap_asc, perPage = Finite False 5 2,
             page = Finite False 3 1, sparkline = Some True, enabled = Some True\<rparr>"
  have h: "enabled ?p \<noteq> Some False" by simp
  have str: "Number_toString (Finite False 5 2) = ''50''" "Number_toString (Finite False 3 1) = ''3''"
    by (simp_all add: js_evals)
  show ?thesis
    using request_url_of_enabled_params [OF h] str by simp
qed

text \<open>
  C7. Changing the currency, the ordering or the page size leaves the page number as
  it was; each mutator writes its own field and no other.
\<close>

theorem mutators_write_own_field:
  "st_page (handleChangeCurrency cv st) = st_page st
   \<and> st_page (handleChangeOrder ov st) = st_page st
   \<and> st_page (handlePageSizeChange cur sv st) = st_page st
   \<and> handleChangeCurrency cv st = st\<lparr>st_currency := cv\<rparr>
   \<and> st_pageSize (handleChangeCurrency cv st) = st_pageSize st
   \<and> st_order (handleChangeCurrency cv st) = st_order st
   \<and> st_currency (handleChangeCurrency cv st) = cv
   \<and> st_pageSize (handleChangeOrder ov st) = st_pageSize st
   \<and> st_currency (handleChangeOrder ov st) = st_currency st
   \<and> st_order (handleChangeOrder ov st) = ov
   \<and> st_currency (handlePageSizeChange cur sv st) = st_currency st
   \<and> st_order (handlePageSizeChange cur sv st) = st_order st
   \<and> st_pageSize (handlePageSizeChange cur sv st) = sv
   \<and> st_pageSize (handlePageChange pv st) = st_pageSize st
   \<and> st_currency (handlePageChange pv st) = st_currency st
   \<and> st_order (handlePageChange pv st) = st_order st
   \<and> st_page (handlePageChange pv st) = pv"
  by (simp add: handleChangeCurrency_def handleChangeOrder_def handlePageSizeChange_def
      handlePageChange_def)

text \<open>
  C10. On mount the query state is page 1, page size 10, currency \<open>usd\<close>, order
  \<open>market_cap_desc\<close>; \<open>App\<close> leaves \<open>enabled\<close> and \<open>sparkline\<close> out, so they
  default to true and false, and the first request key asks for page 1 of 10 USD
  records by descending market cap with \<open>sparkline=false\<close>.
\<close>

theorem initial_request:
  "App_initial =
     \<lparr>st_page = Finite False 1 1, st_pageSize = Finite False 1 2, st_currency = Usd,
      st_order = Market_cap_desc\<rparr>
   \<and> Number_toString (st_page App_initial) = ''1''
   \<and> Number_toString (st_pageSize App_initial) = ''10''
   \<and> enabled (App_params st) = None \<and> sparkline (App_params st) = None
   \<and> default_to True (enabled (App_params st)) = True
   \<and> default_to False (sparkline (App_params st)) = False
   \<and> swr_key (App_params App_initial) =
       Some ''https://api.coingecko.com/api/v3/coins/markets?vs_currency=usd&order=market_cap_desc&per_page=10&page=1&sparkline=false''"
  by (simp add: swr_key_def App_params_def App_initial_def apiUrl_def baseUrl_def default_to_def
      CURRENCY_OPTIONS_def ORDER_OPTIONS_def js_evals)

subsection \<open>The request library\<close>

lemma fetcher_failure:
  "\<not> succeeds (net url) \<Longrightarrow> \<exists>e. fetcher net url ts = (Inl e, ts @ [(''Error fetching data'', ''bottom-left'')])"
  by (auto simp: fetcher_def axios_get_def succeeds_def split: http_outcome.splits)

lemma fetcher_success:
  "succeeds (net url) \<Longrightarrow> \<exists>d. fetcher net url ts = (Inr d, ts)"
  by (auto simp: fetcher_def axios_get_def succeeds_def split: http_outcome.splits)

lemma step_settle_failure:
  assumes "map_of (in_flight s) u = Some r" and "\<not> succeeds out"
  shows "toasts (step_settle cfg u out s) = toasts s @ [(''Error fetching data'', ''bottom-left'')]"
    and "cached (step_settle cfg u out s) = cached s"
    and "current_key (step_settle cfg u out s) = current_key s"
    and "calls (step_settle cfg u out s) =
           (if current_key s = Some u \<and> r < errorRetryCount cfg then calls s @ [u] else calls s)"
proof -
  obtain e where "fetcher (\<lambda>_. out) u (toasts s) = (Inl e, toasts s @ [(''Error fetching data'', ''bottom-left'')])"
    using fetcher_failure [of "\<lambda>_. out" u "toasts s"] assms(2) by auto
  then show "toasts (step_settle cfg u out s) = toasts s @ [(''Error fetching data'', ''bottom-left'')]"
    and "cached (step_settle cfg u out s) = cached s"
    and "current_key (step_settle cfg u out s) = current_key s"
    and "calls (step_settle cfg u out s) =
           (if current_key s = Some u \<and> r < errorRetryCount cfg then calls s @ [u] else calls s)"
    using assms(1) by (simp_all add: step_settle_def Let_def)
qed

lemma step_settle_other_key:
  assumes "current_key s \<noteq> Some u"
  shows "cached (step_settle cfg u out s) = cached s"
    and "current_key (step_settle cfg u out s) = current_key s"
  using assms
  by (auto simp: step_settle_def Let_def split: option.splits prod.splits sum.splits)

lemma step_settle_current_key: "current_key (step_settle cfg u out s) = current_key s"
  by (auto simp: step_settle_def Let_def split: option.splits prod.splits sum.splits)

lemma step_render_cached: "cached (step_render p s) = cached s"
  by (auto simp: step_render_def Let_def split: option.splits)

lemma step_render_current_key: "current_key (step_render p s) = swr_key p"
  by (auto simp: step_render_def Let_def split: option.splits)

lemma step_render_toasts: "toasts (step_render p s) = toasts s"
  by (auto simp: step_render_def Let_def split: option.splits)

lemma step_keeps:
  assumes "current_key s = Some k" and "keeps k ev"
  shows "current_key (step cfg ev s) = Some k \<and> cached (step cfg ev s) = cached s"
proof (cases ev)
  case (Render p)
  then show ?thesis
    using assms by (simp add: step_render_cached step_render_current_key)
next
  case (Settle u out)
  show ?thesis
  proof (cases "u = k")
    case True
    then have fail: "\<not> succeeds out" using assms(2) Settle by simp
    show ?thesis
    proof (cases "map_of (in_flight s) u")
      case None
      then show ?thesis using Settle assms(1) by (simp add: step_settle_def)
    next
      case (Some r)
      then show ?thesis
        using Settle assms(1) step_settle_failure(2,3) [OF Some fail] by simp
    qed
  next
    case False
    then have other: "current_key s \<noteq> Some u" using assms(1) by simp
    show ?thesis
      using Settle assms(1) step_settle_other_key [OF other, of cfg out] by simp
  qed
qed

lemma run_keeps:
  "current_key s = Some k \<Longrightarrow> \<forall>ev \<in> set es. keeps k ev \<Longrightarrow>
   current_key (run cfg es s) = Some k \<and> cached (run cfg es s) = cached s"
proof (induction es arbitrary: s)
  case Nil
  then show ?case by simp
next
  case (Cons ev es)
  have k: "keeps k ev" and rest: "\<forall>ev \<in> set es. keeps k ev"
    using Cons.prems(2) by simp_all
  have st: "current_key (step cfg ev s) = Some k" "cached (step cfg ev s) = cached s"
    using step_keeps [OF Cons.prems(1) k] by simp_all
  show ?case
    using Cons.IH [OF st(1) rest] st(2) by simp
qed

lemma step_render_inv: "swr_inv cfg s \<Longrightarrow> swr_inv cfg (step_render p s)"
  by (auto simp: swr_inv_def step_render_def Let_def split: option.splits)

lemma filter_keys_distinct:
  "distinct (map fst xs) \<Longrightarrow> distinct (map fst (filter (\<lambda>(k, _). k \<noteq> u) xs))"
  by (induction xs) auto

lemma filter_keys_fresh: "u \<notin> fst ` set (filter (\<lambda>(k, _). k \<noteq> u) xs)"
  by auto

lemma step_settle_inv:
  assumes "swr_inv cfg s"
  shows "swr_inv cfg (step_settle cfg u out s)"
proof (cases "map_of (in_flight s) u")
  case None
  then show ?thesis using assms by (simp add: step_settle_def)
next
  case (Some r)
  let ?rest = "filter (\<lambda>(k, _). k \<noteq> u) (in_flight s)"
  have d: "distinct (map fst ?rest)"
    using assms filter_keys_distinct by (auto simp: swr_inv_def)
  have b: "\<forall>(k, n) \<in> set ?rest. n \<le> errorRetryCount cfg"
    using assms by (auto simp: swr_inv_def)
  have fresh: "u \<notin> fst ` set ?rest"
    by (rule filter_keys_fresh)
  obtain res ts where f: "fetcher (\<lambda>_. out) u (toasts s) = (res, ts)"
    by (cases "fetcher (\<lambda>_. out) u (toasts s)")
  show ?thesis
    using Some f d b fresh
    by (cases res) (auto simp: step_settle_def swr_inv_def Let_def)
qed

lemma step_inv: "swr_inv cfg s \<Longrightarrow> swr_inv cfg (step cfg ev s)"
  by (cases ev) (simp_all add: step_render_inv step_settle_inv)

lemma run_inv: "swr_inv cfg s \<Longrightarrow> swr_inv cfg (run cfg es s)"
  by (induction es arbitrary: s) (simp_all add: step_inv)

lemma init_inv: "swr_inv cfg swr_init"
  by (simp add: swr_inv_def swr_init_def)

lemma shown_coins_cached:
  "cached s = Some (k, d) \<Longrightarrow> shown_coins s p = d"
  by (simp add: shown_coins_def useGetCoins_def useSWR_at_def swr_options_def coins_of_def Let_def)

lemma shown_coins_cong:
  "cached s' = cached s \<Longrightarrow> shown_coins s' p = shown_coins s p"
  by (simp add: shown_coins_def useGetCoins_def useSWR_at_def swr_options_def coins_of_def Let_def)

lemmas swr_evals = swr_key_def apiUrl_def baseUrl_def default_to_def App_params_def
  App_initial_def CURRENCY_OPTIONS_def ORDER_OPTIONS_def swr_options_def swr_init_def
  step_render_def step_settle_def fetcher_def axios_get_def succeeds_def Let_def

lemma initial_url:
  "apiUrl (App_params App_initial) =
     ''https://api.coingecko.com/api/v3/coins/markets?vs_currency=usd&order=market_cap_desc&per_page=10&page=1&sparkline=false''"
  by (simp add: swr_evals js_evals)

lemma initial_key: "swr_key (App_params st) = Some (apiUrl (App_params st))"
  by (simp add: swr_key_def default_to_def App_params_def)

text \<open>
  C1. When the request in flight for a key fails (a network error or a status outside
  200..299), the fetcher adds exactly one notification \<open>Error fetching data\<close>,
  throws the error of the request again, and the coin list shown stays as it was.
\<close>

theorem failed_request_notifies_once:
  assumes "map_of (in_flight s) u = Some r" and "\<not> succeeds out"
  shows "(\<exists>e. axios_get (\<lambda>_. out) u = Inl e
              \<and> fetcher (\<lambda>_. out) u (toasts s)
                  = (Inl e, toasts s @ [(''Error fetching data'', ''bottom-left'')]))
         \<and> toasts (step_settle swr_options u out s)
             = toasts s @ [(''Error fetching data'', ''bottom-left'')]
         \<and> shown_coins (step_settle swr_options u out s) p = shown_coins s p"
proof -
  have "\<exists>e. axios_get (\<lambda>_. out) u = Inl e
             \<and> fetcher (\<lambda>_. out) u (toasts s)
                 = (Inl e, toasts s @ [(''Error fetching data'', ''bottom-left'')])"
    using assms(2)
    by (auto simp: fetcher_def axios_get_def succeeds_def split: http_outcome.splits)
  moreover have "toasts (step_settle swr_options u out s)
                   = toasts s @ [(''Error fetching data'', ''bottom-left'')]"
    using step_settle_failure(1) [OF assms] by simp
  moreover have "shown_coins (step_settle swr_options u out s) p = shown_coins s p"
    using step_settle_failure(2) [OF assms] by (rule shown_coins_cong)
  ultimately show ?thesis by blast
qed

text \<open>A status 500 while another key's data is on display.\<close>

theorem failed_request_notifies_once_witness:
  "map_of (in_flight \<lparr>current_key = Some ''u2'', cached = Some (''u1'', [[(''id'', JString ''bitcoin'')]]),
                      in_flight = [(''u2'', 0)], calls = [''u1'', ''u2''], toasts = []\<rparr>) ''u2''
     = Some 0
   \<and> \<not> succeeds (HttpResponse 500 ([] :: Coin list))
   \<and> toasts (step_settle swr_options ''u2'' (HttpResponse 500 [])
        \<lparr>current_key = Some ''u2'', cached = Some (''u1'', [[(''id'', JString ''bitcoin'')]]),
         in_flight = [(''u2'', 0)], calls = [''u1'', ''u2''], toasts = []\<rparr>)
     = [(''Error fetching data'', ''bottom-left'')]
   \<and> shown_coins (step_settle swr_options ''u2'' (HttpResponse 500 [])
        \<lparr>current_key = Some ''u2'', cached = Some (''u1'', [[(''id'', JString ''bitcoin'')]]),
         in_flight = [(''u2'', 0)], calls = [''u1'', ''u2''], toasts = []\<rparr>)
        (App_params App_initial)
     = [[(''id'', JString ''bitcoin'')]]"
proof -
  let ?s = "\<lparr>current_key = Some ''u2'', cached = Some (''u1'', [[(''id'', JString ''bitcoin'')]]),
             in_flight = [(''u2'', 0)], calls = [''u1'', ''u2''], toasts = []\<rparr>"
  have h1: "map_of (in_flight ?s) ''u2'' = Some 0" by simp
  have h2: "\<not> succeeds (HttpResponse 500 ([] :: Coin list))" by (simp add: succeeds_def)
  have before: "shown_coins ?s (App_params App_initial) = [[(''id'', JString ''bitcoin'')]]"
    by (rule shown_coins_cached) simp
  show ?thesis
    using failed_request_notifies_once [OF h1 h2, of "App_params App_initial"] h1 h2 before
    by simp
qed

text \<open>
  C2. In every reachable state no key is in flight twice. When the data on display
  belongs to the current key \<open>k1\<close> and the parameters change to a tuple with another
  key \<open>k2\<close>, a fetch for \<open>k2\<close> is in flight and the coin list stays the data of
  \<open>k1\<close> through every later event, until the fetch for \<open>k2\<close> succeeds or the
  parameters change again.
\<close>

theorem previous_data_kept_and_no_duplicates:
  "distinct (map fst (in_flight (run swr_options es swr_init)))
   \<and> (current_key s = Some k1 \<and> cached s = Some (k1, d) \<and> swr_key p2 = Some k2 \<and> k2 \<noteq> k1
        \<and> (\<forall>ev \<in> set es'. keeps k2 ev)
        \<longrightarrow> shown_coins s p1 = d
            \<and> k2 \<in> fst ` set (in_flight (step_render p2 s))
            \<and> shown_coins (run swr_options es' (step_render p2 s)) p2 = d)"
proof -
  have "swr_inv swr_options (run swr_options es (swr_init :: 'a swr_state))"
    by (rule run_inv) (rule init_inv)
  then have dedup: "distinct (map fst (in_flight (run swr_options es (swr_init :: 'a swr_state))))"
    by (simp add: swr_inv_def)
  have kept: "shown_coins s p1 = d
              \<and> k2 \<in> fst ` set (in_flight (step_render p2 s))
              \<and> shown_coins (run swr_options es' (step_render p2 s)) p2 = d"
    if c: "cached s = Some (k1, d)" and k: "swr_key p2 = Some k2"
      and q: "\<forall>ev \<in> set es'. keeps k2 ev"
      and k1: "current_key s = Some k1" and ne: "k2 \<noteq> k1"
  proof -
    have cur: "current_key (step_render p2 s) = Some k2"
      using k by (simp add: step_render_current_key)
    have "cached (run swr_options es' (step_render p2 s)) = cached (step_render p2 s)"
      using run_keeps [OF cur q] by simp
    then have "cached (run swr_options es' (step_render p2 s)) = Some (k1, d)"
      using c by (simp add: step_render_cached)
    moreover have "k2 \<in> fst ` set (in_flight (step_render p2 s))"
      using k k1 ne by (auto simp: step_render_def Let_def)
    ultimately show ?thesis
      using c by (simp add: shown_coins_cached)
  qed
  show ?thesis
    using dedup kept by blast
qed

text \<open>A late answer to the old key, a failed answer to the new key and a re-render.\<close>

theorem previous_data_kept_and_no_duplicates_witness:
  "current_key \<lparr>current_key = Some ''u1'', cached = Some (''u1'', [[(''id'', JString ''bitcoin'')]]),
                 in_flight = [], calls = [''u1''], toasts = []\<rparr> = Some ''u1''
   \<and> swr_key (App_params App_initial) = Some (apiUrl (App_params App_initial))
   \<and> apiUrl (App_params App_initial) \<noteq> ''u1''
   \<and> keeps (apiUrl (App_params App_initial)) (Settle ''u1'' (HttpResponse 200 ([] :: Coin list)))
   \<and> keeps (apiUrl (App_params App_initial))
        (Settle (apiUrl (App_params App_initial)) (NetworkFailure :: Coin list http_outcome))
   \<and> keeps (apiUrl (App_params App_initial)) (Render (App_params App_initial) :: Coin list event)
   \<and> shown_coins
        (run swr_options
           [Settle ''u1'' (HttpResponse 200 []),
            Settle (apiUrl (App_params App_initial)) NetworkFailure,
            Render (App_params App_initial)]
           (step_render (App_params App_initial)
              \<lparr>current_key = Some ''u1'', cached = Some (''u1'', [[(''id'', JString ''bitcoin'')]]),
               in_flight = [], calls = [''u1''], toasts = []\<rparr>))
        (App_params App_initial)
     = [[(''id'', JString ''bitcoin'')]]"
proof -
  let ?s = "\<lparr>current_key = Some ''u1'', cached = Some (''u1'', [[(''id'', JString ''bitcoin'')]]),
             in_flight = [], calls = [''u1''], toasts = []\<rparr>"
  let ?p = "App_params App_initial"
  let ?es = "[Settle ''u1'' (HttpResponse 200 ([] :: Coin list)), Settle (apiUrl ?p) NetworkFailure,
              Render ?p]"
  have h1: "current_key ?s = Some ''u1''" and h2: "cached ?s = Some (''u1'', [[(''id'', JString ''bitcoin'')]])"
    by simp_all
  have h3: "swr_key ?p = Some (apiUrl ?p)" by (rule initial_key)
  have h4: "apiUrl ?p \<noteq> ''u1''" by (simp add: initial_url)
  have h5: "\<forall>ev \<in> set ?es. keeps (apiUrl ?p) ev"
    using h3 h4 by (simp add: succeeds_def)
  have hyp: "current_key ?s = Some ''u1'' \<and> cached ?s = Some (''u1'', [[(''id'', JString ''bitcoin'')]])
             \<and> swr_key ?p = Some (apiUrl ?p) \<and> apiUrl ?p \<noteq> ''u1''
             \<and> (\<forall>ev \<in> set ?es. keeps (apiUrl ?p) ev)"
    using h1 h2 h3 h4 h5 by (intro conjI)
  have kept: "shown_coins (run swr_options ?es (step_render ?p ?s)) ?p = [[(''id'', JString ''bitcoin'')]]"
    using previous_data_kept_and_no_duplicates
        [of "[] :: Coin list event list" ?s "''u1''" "[[(''id'', JString ''bitcoin'')]]" ?p
          "apiUrl ?p" ?es ?p, THEN conjunct2, THEN mp, OF hyp]
    by (elim conjE)
  have each: "keeps (apiUrl ?p) (Settle ''u1'' (HttpResponse 200 ([] :: Coin list)))"
    "keeps (apiUrl ?p) (Settle (apiUrl ?p) (NetworkFailure :: Coin list http_outcome))"
    "keeps (apiUrl ?p) (Render ?p :: Coin list event)"
    using h5 by simp_all
  show ?thesis
    using h1 h3 h4 each kept by (intro conjI)
qed

lemma step_settle_success_calls:
  "succeeds out \<Longrightarrow> calls (step_settle cfg u out s) = calls s"
  by (auto simp: step_settle_def fetcher_def axios_get_def succeeds_def Let_def
      split: option.splits http_outcome.splits)

lemma disabled_key: "enabled p = Some False \<Longrightarrow> swr_key p = None"
  by (simp add: swr_key_def default_to_def)

lemma step_render_null_key:
  "swr_key p = None \<Longrightarrow> calls (step_render p s) = calls s \<and> in_flight (step_render p s) = in_flight s"
  by (simp add: step_render_def Let_def)

lemma step_render_calls:
  "swr_key p = Some u \<Longrightarrow>
   calls (step_render p s) =
     (if current_key s = Some u \<or> u \<in> fst ` set (in_flight s) then calls s else calls s @ [u])"
  by (simp add: step_render_def Let_def)

lemma map_of_filter_key: "map_of (filter (\<lambda>(k, _). k \<noteq> u) xs) u = None"
  by (induction xs) auto

lemma step_settle_absent: "map_of (in_flight s) u = None \<Longrightarrow> step_settle cfg u out s = s"
  by (simp add: step_settle_def)

lemma run_settle_absent:
  "map_of (in_flight s) u = None \<Longrightarrow> run cfg (replicate n (Settle u out)) s = s"
  by (induction n) (simp_all add: step_settle_absent)

lemma step_settle_failure_in_flight:
  assumes "map_of (in_flight s) u = Some r" and "\<not> succeeds out"
  shows "in_flight (step_settle cfg u out s) =
           (if current_key s = Some u \<and> r < errorRetryCount cfg
            then filter (\<lambda>(k, _). k \<noteq> u) (in_flight s) @ [(u, Suc r)]
            else filter (\<lambda>(k, _). k \<noteq> u) (in_flight s))"
proof -
  obtain e where "fetcher (\<lambda>_. out) u (toasts s) = (Inl e, toasts s @ [(''Error fetching data'', ''bottom-left'')])"
    using fetcher_failure [of "\<lambda>_. out" u "toasts s"] assms(2) by auto
  then show ?thesis
    using assms(1) by (simp add: step_settle_def Let_def)
qed

lemma step_settle_failure_retry:
  assumes "map_of (in_flight s) u = Some r" and "\<not> succeeds out"
    and "current_key s = Some u" and "r < errorRetryCount cfg"
  shows "map_of (in_flight (step_settle cfg u out s)) u = Some (Suc r)"
  using step_settle_failure_in_flight [OF assms(1,2), of cfg] assms(3,4)
  by (simp add: map_add_def map_of_filter_key)

lemma step_settle_failure_last:
  assumes "map_of (in_flight s) u = Some r" and "\<not> succeeds out"
    and "\<not> (current_key s = Some u \<and> r < errorRetryCount cfg)"
  shows "map_of (in_flight (step_settle cfg u out s)) u = None"
  using step_settle_failure_in_flight [OF assms(1,2), of cfg] assms(3)
  by (simp add: map_of_filter_key)

lemma failures_calls:
  assumes fail: "\<not> succeeds out"
  shows "map_of (in_flight s) u = Some r \<Longrightarrow> current_key s = Some u \<Longrightarrow>
         calls (run cfg (replicate n (Settle u out)) s) =
           calls s @ replicate (min n (errorRetryCount cfg - r)) u"
proof (induction n arbitrary: s r)
  case 0
  then show ?case by simp
next
  case (Suc n)
  let ?s' = "step_settle cfg u out s"
  show ?case
  proof (cases "r < errorRetryCount cfg")
    case True
    have m: "map_of (in_flight ?s') u = Some (Suc r)"
      using step_settle_failure_retry [OF Suc.prems(1) fail Suc.prems(2) True] .
    have k: "current_key ?s' = Some u"
      using step_settle_failure(3) [OF Suc.prems(1) fail, of cfg] Suc.prems(2) by simp
    have c: "calls ?s' = calls s @ [u]"
      using step_settle_failure(4) [OF Suc.prems(1) fail, of cfg] Suc.prems(2) True by simp
    have "calls (run cfg (replicate n (Settle u out)) ?s') =
            calls ?s' @ replicate (min n (errorRetryCount cfg - Suc r)) u"
      using Suc.IH [OF m k] .
    moreover have "min (Suc n) (errorRetryCount cfg - r) = Suc (min n (errorRetryCount cfg - Suc r))"
      using True by auto
    ultimately show ?thesis
      using c by simp
  next
    case False
    have m: "map_of (in_flight ?s') u = None"
      using step_settle_failure_last [OF Suc.prems(1) fail, of cfg] False by simp
    have c: "calls ?s' = calls s"
      using step_settle_failure(4) [OF Suc.prems(1) fail, of cfg] False by simp
    have "run cfg (replicate n (Settle u out)) ?s' = ?s'"
      using m by (rule run_settle_absent)
    then show ?thesis
      using c False by simp
  qed
qed

text \<open>
  C8, as amended. With \<open>enabled\<close> false the key is null and a render issues no
  network call. Each change of the key to the URL of an enabled tuple issues exactly
  one call, or none when that URL is already in flight, so a tuple that is selected
  again is called again; a render that keeps the key issues none. A successful answer
  issues no call. A failed answer to the current key issues the call again with the
  retry count of the request raised by one, until the count is 3: \<open>n\<close> failures
  in a row of a request at retry count \<open>r\<close> cost \<open>min n (3 - r)\<close> further calls, and
  no request in a reachable state is past its third retry.
\<close>

theorem calls_per_render_and_retry:
  "(enabled p = Some False \<longrightarrow>
      swr_key p = None \<and> calls (step_render p s) = calls s
      \<and> in_flight (step_render p s) = in_flight s)
   \<and> (swr_key p = Some u \<and> current_key s \<noteq> Some u \<and> u \<notin> fst ` set (in_flight s) \<longrightarrow>
        calls (step_render p s) = calls s @ [u])
   \<and> (swr_key p = Some u \<and> (current_key s = Some u \<or> u \<in> fst ` set (in_flight s)) \<longrightarrow>
        calls (step_render p s) = calls s)
   \<and> (succeeds out \<longrightarrow> calls (step_settle swr_options u out s) = calls s)
   \<and> (map_of (in_flight s) u = Some r \<and> \<not> succeeds out \<longrightarrow>
        calls (step_settle swr_options u out s) =
          (if current_key s = Some u \<and> r < 3 then calls s @ [u] else calls s)
        \<and> in_flight (step_settle swr_options u out s) =
          (if current_key s = Some u \<and> r < 3
           then filter (\<lambda>(k, _). k \<noteq> u) (in_flight s) @ [(u, Suc r)]
           else filter (\<lambda>(k, _). k \<noteq> u) (in_flight s)))
   \<and> (map_of (in_flight s) u = Some r \<and> current_key s = Some u \<and> \<not> succeeds out \<longrightarrow>
        calls (run swr_options (replicate n (Settle u out)) s) =
          calls s @ replicate (min n (3 - r)) u)
   \<and> (\<forall>(k, m) \<in> set (in_flight (run swr_options es swr_init)). m \<le> 3)"
proof -
  have a: "enabled p = Some False \<longrightarrow>
      swr_key p = None \<and> calls (step_render p s) = calls s
      \<and> in_flight (step_render p s) = in_flight s"
    using disabled_key [of p] step_render_null_key [of p s] by blast
  have b: "swr_key p = Some u \<and> current_key s \<noteq> Some u \<and> u \<notin> fst ` set (in_flight s) \<longrightarrow>
        calls (step_render p s) = calls s @ [u]"
    using step_render_calls [of p u s] by simp
  have c: "swr_key p = Some u \<and> (current_key s = Some u \<or> u \<in> fst ` set (in_flight s)) \<longrightarrow>
        calls (step_render p s) = calls s"
    using step_render_calls [of p u s] by auto
  have d: "succeeds out \<longrightarrow> calls (step_settle swr_options u out s) = calls s"
    by (simp add: step_settle_success_calls)
  have e: "map_of (in_flight s) u = Some r \<and> \<not> succeeds out \<longrightarrow>
        calls (step_settle swr_options u out s) =
          (if current_key s = Some u \<and> r < 3 then calls s @ [u] else calls s)
        \<and> in_flight (step_settle swr_options u out s) =
          (if current_key s = Some u \<and> r < 3
           then filter (\<lambda>(k, _). k \<noteq> u) (in_flight s) @ [(u, Suc r)]
           else filter (\<lambda>(k, _). k \<noteq> u) (in_flight s))"
    using step_settle_failure(4) [of s u r out swr_options]
      step_settle_failure_in_flight [of s u r out swr_options]
    by (simp add: swr_options_def)
  have f: "map_of (in_flight s) u = Some r \<and> current_key s = Some u \<and> \<not> succeeds out \<longrightarrow>
        calls (run swr_options (replicate n (Settle u out)) s) =
          calls s @ replicate (min n (3 - r)) u"
    using failures_calls [of out s u r swr_options n] by (simp add: swr_options_def)
  have "swr_inv swr_options (run swr_options es (swr_init :: 'b swr_state))"
    by (rule run_inv) (rule init_inv)
  then have g: "\<forall>(k, m) \<in> set (in_flight (run swr_options es (swr_init :: 'b swr_state))). m \<le> 3"
    by (simp add: swr_inv_def swr_options_def)
  show ?thesis
    using a b c d e f g by (intro conjI)
qed

text \<open>
  C8 as stated fails twice: after one render and one network failure the same URL has
  been called twice; and when every call succeeds, going to page 2 and back to page 1
  calls the URL of page 1 a second time.
\<close>

theorem one_call_per_tuple_counterexample:
  "calls (run swr_options
            [Render (App_params App_initial),
             Settle ''https://api.coingecko.com/api/v3/coins/markets?vs_currency=usd&order=market_cap_desc&per_page=10&page=1&sparkline=false'' NetworkFailure]
            (swr_init :: Coin list swr_state))
   = [''https://api.coingecko.com/api/v3/coins/markets?vs_currency=usd&order=market_cap_desc&per_page=10&page=1&sparkline=false'',
      ''https://api.coingecko.com/api/v3/coins/markets?vs_currency=usd&order=market_cap_desc&per_page=10&page=1&sparkline=false'']
   \<and> calls (run swr_options
            [Render (App_params App_initial),
             Settle ''https://api.coingecko.com/api/v3/coins/markets?vs_currency=usd&order=market_cap_desc&per_page=10&page=1&sparkline=false'' (HttpResponse 200 []),
             Render (App_params (handlePageChange (Finite False 2 1) App_initial)),
             Settle ''https://api.coingecko.com/api/v3/coins/markets?vs_currency=usd&order=market_cap_desc&per_page=10&page=2&sparkline=false'' (HttpResponse 200 []),
             Render (App_params App_initial)]
            (swr_init :: Coin list swr_state))
   = [''https://api.coingecko.com/api/v3/coins/markets?vs_currency=usd&order=market_cap_desc&per_page=10&page=1&sparkline=false'',
      ''https://api.coingecko.com/api/v3/coins/markets?vs_currency=usd&order=market_cap_desc&per_page=10&page=2&sparkline=false'',
      ''https://api.coingecko.com/api/v3/coins/markets?vs_currency=usd&order=market_cap_desc&per_page=10&page=1&sparkline=false'']"
  by (simp add: swr_evals js_evals handlePageChange_def)

text \<open>
  A disabled tuple, the first render, a re-render, both kinds of answer, five failures
  in a row and a failure at the last retry.
\<close>

theorem calls_per_render_and_retry_witness:
  "enabled \<lparr>currency = Usd, order = Market_cap_desc, perPage = Finite False 1 2,
            page = Finite False 1 1, sparkline = None, enabled = Some False\<rparr> = Some False
   \<and> calls (step_render
        \<lparr>currency = Usd, order = Market_cap_desc, perPage = Finite False 1 2,
         page = Finite False 1 1, sparkline = None, enabled = Some False\<rparr>
        (swr_init :: Coin list swr_state)) = []
   \<and> swr_key (App_params App_initial) = Some (apiUrl (App_params App_initial))
   \<and> current_key (swr_init :: Coin list swr_state) \<noteq> Some (apiUrl (App_params App_initial))
   \<and> apiUrl (App_params App_initial) \<notin> fst ` set (in_flight (swr_init :: Coin list swr_state))
   \<and> calls (step_render (App_params App_initial) (swr_init :: Coin list swr_state))
       = [apiUrl (App_params App_initial)]
   \<and> apiUrl (App_params App_initial)
       \<in> fst ` set (in_flight (step_render (App_params App_initial) (swr_init :: Coin list swr_state)))
   \<and> calls (step_render (App_params App_initial)
               (step_render (App_params App_initial) (swr_init :: Coin list swr_state)))
       = [apiUrl (App_params App_initial)]
   \<and> succeeds (HttpResponse 200 ([] :: Coin list))
   \<and> calls (step_settle swr_options (apiUrl (App_params App_initial)) (HttpResponse 200 [])
               (step_render (App_params App_initial) (swr_init :: Coin list swr_state)))
       = [apiUrl (App_params App_initial)]
   \<and> map_of (in_flight (step_render (App_params App_initial) (swr_init :: Coin list swr_state)))
        (apiUrl (App_params App_initial)) = Some 0
   \<and> current_key (step_render (App_params App_initial) (swr_init :: Coin list swr_state))
       = Some (apiUrl (App_params App_initial))
   \<and> \<not> succeeds (NetworkFailure :: Coin list http_outcome)
   \<and> calls (step_settle swr_options (apiUrl (App_params App_initial)) NetworkFailure
               (step_render (App_params App_initial) (swr_init :: Coin list swr_state)))
       = [apiUrl (App_params App_initial), apiUrl (App_params App_initial)]
   \<and> in_flight (step_settle swr_options (apiUrl (App_params App_initial)) NetworkFailure
               (step_render (App_params App_initial) (swr_init :: Coin list swr_state)))
       = [(apiUrl (App_params App_initial), 1)]
   \<and> calls (run swr_options (replicate 5 (Settle (apiUrl (App_params App_initial)) NetworkFailure))
               (step_render (App_params App_initial) (swr_init :: Coin list swr_state)))
       = [apiUrl (App_params App_initial), apiUrl (App_params App_initial),
          apiUrl (App_params App_initial), apiUrl (App_params App_initial)]
   \<and> map_of (in_flight
          \<lparr>current_key = Some ''u'', cached = (None :: (string \<times> Coin list) option),
           in_flight = [(''u'', 3)], calls = [''u'', ''u'', ''u'', ''u''], toasts = []\<rparr>) ''u''
       = Some 3
   \<and> calls (step_settle swr_options ''u'' (HttpResponse 503 [])
          \<lparr>current_key = Some ''u'', cached = (None :: (string \<times> Coin list) option),
           in_flight = [(''u'', 3)], calls = [''u'', ''u'', ''u'', ''u''], toasts = []\<rparr>)
       = [''u'', ''u'', ''u'', ''u'']
   \<and> in_flight (step_settle swr_options ''u'' (HttpResponse 503 [])
          \<lparr>current_key = Some ''u'', cached = (None :: (string \<times> Coin list) option),
           in_flight = [(''u'', 3)], calls = [''u'', ''u'', ''u'', ''u''], toasts = []\<rparr>)
       = []
   \<and> (apiUrl (App_params App_initial), 1)
       \<in> set (in_flight (run swr_options
                 [Render (App_params App_initial),
                  Settle (apiUrl (App_params App_initial)) NetworkFailure]
                 (swr_init :: Coin list swr_state)))
   \<and> (1 :: nat) \<le> 3"
proof -
  let ?pd = "\<lparr>currency = Usd, order = Market_cap_desc, perPage = Finite False 1 2,
              page = Finite False 1 1, sparkline = None, enabled = Some False\<rparr>"
  let ?p = "App_params App_initial"
  let ?u = "apiUrl ?p"
  let ?s0 = "swr_init :: Coin list swr_state"
  let ?s1 = "step_render ?p ?s0"
  let ?s3 = "\<lparr>current_key = Some ''u'', cached = (None :: (string \<times> Coin list) option),
              in_flight = [(''u'', 3)], calls = [''u'', ''u'', ''u'', ''u''], toasts = []\<rparr>"
  let ?ok = "HttpResponse 200 ([] :: Coin list)"
  let ?ko = "NetworkFailure :: Coin list http_outcome"
  let ?bad = "HttpResponse 503 ([] :: Coin list)"
  let ?es = "[Render ?p, Settle ?u ?ko]"
  have s1: "?s1 = \<lparr>current_key = Some ?u, cached = None, in_flight = [(?u, 0)], calls = [?u],
                    toasts = []\<rparr>"
    by (simp add: step_render_def initial_key swr_init_def)
  have h1: "enabled ?pd = Some False" by simp
  have h2: "swr_key ?p = Some ?u" by (rule initial_key)
  have h3: "current_key ?s0 \<noteq> Some ?u" "?u \<notin> fst ` set (in_flight ?s0)" "calls ?s0 = []"
    by (simp_all add: swr_init_def)
  have h4: "?u \<in> fst ` set (in_flight ?s1)" "map_of (in_flight ?s1) ?u = Some 0" "calls ?s1 = [?u]"
    "current_key ?s1 = Some ?u" "in_flight ?s1 = [(?u, 0)]"
    by (simp_all add: s1)
  have h5: "succeeds ?ok" "\<not> succeeds ?ko" "\<not> succeeds ?bad"
    by (simp_all add: succeeds_def)
  have h6: "map_of (in_flight ?s3) ''u'' = Some 3" "current_key ?s3 = Some ''u''"
    "calls ?s3 = [''u'', ''u'', ''u'', ''u'']" "in_flight ?s3 = [(''u'', 3)]"
    by simp_all
  have run: "in_flight (run swr_options ?es ?s0) = [(?u, 1)]"
    by (simp add: s1 step_settle_def fetcher_def axios_get_def swr_options_def)
  note thm0 = calls_per_render_and_retry
    [where p = ?pd and s = ?s0 and u = ?u and out = ?ok and r = 0 and n = 5 and es = ?es]
  note thm1 = calls_per_render_and_retry
    [where p = ?p and s = ?s0 and u = ?u and out = ?ok and r = 0 and n = 5 and es = ?es]
  note thm2 = calls_per_render_and_retry
    [where p = ?p and s = ?s1 and u = ?u and out = ?ok and r = 0 and n = 5 and es = ?es]
  note thm3 = calls_per_render_and_retry
    [where p = ?p and s = ?s1 and u = ?u and out = ?ko and r = 0 and n = 5 and es = ?es]
  note thm4 = calls_per_render_and_retry
    [where p = ?p and s = ?s3 and u = "''u''" and out = ?bad and r = 3 and n = 5 and es = ?es]
  have c1: "calls (step_render ?pd ?s0) = []"
    using thm0 h1 h3(3) by simp
  have c2: "calls (step_render ?p ?s0) = [?u]"
    using thm1 h2 h3 by simp
  have c3: "calls (step_render ?p ?s1) = [?u]"
    using thm2 h2 h4(1,3) by simp
  have c4: "calls (step_settle swr_options ?u ?ok ?s1) = [?u]"
    using thm2 h5(1) h4(3) by simp
  have c5: "calls (step_settle swr_options ?u ?ko ?s1) = [?u, ?u]
            \<and> in_flight (step_settle swr_options ?u ?ko ?s1) = [(?u, 1)]"
    using thm3 h5(2) h4(2,3,4,5) by simp
  have "calls (run swr_options (replicate 5 (Settle ?u ?ko)) ?s1) = calls ?s1 @ replicate (min 5 (3 - 0)) ?u"
    using thm3 h5(2) h4(2,4) by blast
  then have c6: "calls (run swr_options (replicate 5 (Settle ?u ?ko)) ?s1) = [?u, ?u, ?u, ?u]"
    using h4(3) by (simp add: numeral_3_eq_3)
  have c7: "calls (step_settle swr_options ''u'' ?bad ?s3) = [''u'', ''u'', ''u'', ''u'']
            \<and> in_flight (step_settle swr_options ''u'' ?bad ?s3) = []"
    using thm4 h5(3) h6 by simp
  have c8: "\<forall>(k, m) \<in> set (in_flight (run swr_options ?es ?s0)). m \<le> 3"
    using thm3 by blast
  have c9: "(?u, 1) \<in> set (in_flight (run swr_options ?es ?s0))"
    using run by simp
  have c10: "(1 :: nat) \<le> 3"
    using c8 c9 by blast
  show ?thesis
    using h1 c1 h2 h3(1,2) c2 h4(1) c3 h5(1) c4 h4(2,4) h5(2) c5 c6 h6(1) c7 c9 c10
    by (intro conjI) blast+
qed

text \<open>
  C9. When \<open>useSWR\<close> has no data yet, the hook returns the empty coin list; when its
  data is the empty list, the hook returns the empty list and the table renders zero
  rows without raising.
\<close>

theorem empty_coin_list:
  "(data (useSWR (swr_key p) swr_options) = None \<longrightarrow> coins (useGetCoins useSWR p) = [])
   \<and> (data (useSWR (swr_key p) swr_options) = Some [] \<longrightarrow>
        coins (useGetCoins useSWR p) = []
        \<and> Table (columns upper cur) (coins (useGetCoins useSWR p)) = Inr [])"
  by (simp add: useGetCoins_def coins_of_def Table_def Let_def)

text \<open>The state before the first fetch, and the state after an empty response.\<close>

theorem empty_coin_list_witness:
  "data (useSWR_at (swr_init :: Coin list swr_state) (swr_key (App_params App_initial)) swr_options)
     = None
   \<and> coins (useGetCoins (useSWR_at swr_init) (App_params App_initial)) = []
   \<and> data (useSWR_at
        (run swr_options
           [Render (App_params App_initial),
            Settle (apiUrl (App_params App_initial)) (HttpResponse 200 [])]
           (swr_init :: Coin list swr_state))
        (swr_key (App_params App_initial)) swr_options) = Some []
   \<and> coins (useGetCoins (useSWR_at
        (run swr_options
           [Render (App_params App_initial),
            Settle (apiUrl (App_params App_initial)) (HttpResponse 200 [])] swr_init))
        (App_params App_initial)) = []
   \<and> Table (columns toUpperCase Usd) (coins (useGetCoins (useSWR_at
        (run swr_options
           [Render (App_params App_initial),
            Settle (apiUrl (App_params App_initial)) (HttpResponse 200 [])] swr_init))
        (App_params App_initial))) = Inr []"
proof -
  let ?p = "App_params App_initial"
  let ?s0 = "swr_init :: Coin list swr_state"
  let ?s2 = "run swr_options [Render ?p, Settle (apiUrl ?p) (HttpResponse 200 [])] ?s0"
  have s2: "cached ?s2 = Some (apiUrl ?p, [])"
    by (simp add: step_render_def step_settle_def initial_key swr_init_def fetcher_def
        axios_get_def)
  have h0: "data (useSWR_at ?s0 (swr_key ?p) swr_options) = None"
    by (simp add: useSWR_at_def swr_init_def Let_def)
  have h2: "data (useSWR_at ?s2 (swr_key ?p) swr_options) = Some []"
    using s2 by (simp add: useSWR_at_def initial_key Let_def)
  have c0: "coins (useGetCoins (useSWR_at ?s0) ?p) = []"
    using empty_coin_list [of "useSWR_at ?s0" ?p toUpperCase Usd] h0 by blast
  have c2: "coins (useGetCoins (useSWR_at ?s2) ?p) = []
            \<and> Table (columns toUpperCase Usd) (coins (useGetCoins (useSWR_at ?s2) ?p)) = Inr []"
    using empty_coin_list [of "useSWR_at ?s2" ?p toUpperCase Usd] h2 by blast
  show ?thesis
    using h0 c0 h2 c2 by (intro conjI) blast+
qed

end
